theory Spec2Isabelle
  imports Main
begin

section \<open>Python strings\<close>

text \<open>
  A Python \<open>str\<close> is modelled as the list of its code points, for the code points
  \<open>0..255\<close> that the type \<^typ>\<open>char\<close> has. The operations below are the ones the
  repository calls: \<open>str.isspace\<close> (behind \<open>str.strip()\<close>), \<open>str.strip\<close>,
  \<open>str.join\<close>, \<open>str.lower\<close> and \<open>str(int)\<close> (behind the f-strings).
\<close>

definition isspace :: "char \<Rightarrow> bool" where
  "isspace c =
     (let n = (of_char c :: nat)
      in (9 \<le> n \<and> n \<le> 13) \<or> (28 \<le> n \<and> n \<le> 32) \<or> n = 133 \<or> n = 160)"

definition strip :: "string \<Rightarrow> string" where
  "strip s = rev (dropWhile isspace (rev (dropWhile isspace s)))"

text \<open>\<open>sep.join(xs)\<close>: the elements of \<open>xs\<close> with \<open>sep\<close> between neighbours.\<close>

fun join :: "string \<Rightarrow> string list \<Rightarrow> string" where
  "join sep [] = []"
| "join sep [x] = x"
| "join sep (x # y # ys) = x @ sep @ join sep (y # ys)"

definition lower_char :: "char \<Rightarrow> char" where
  "lower_char c =
     (let n = (of_char c :: nat)
      in if (65 \<le> n \<and> n \<le> 90) \<or> (192 \<le> n \<and> n \<le> 222 \<and> n \<noteq> 215)
         then char_of (n + 32) else c)"

definition lower :: "string \<Rightarrow> string" where
  "lower s = map lower_char s"

fun digits :: "nat \<Rightarrow> string" where
  "digits n =
     (if n < 10 then [char_of (48 + n)]
      else digits (n div 10) @ [char_of (48 + n mod 10)])"

declare digits.simps [simp del]

definition str_int :: "int \<Rightarrow> string" where
  "str_int i = (if i < 0 then CHR ''-'' # digits (nat (- i)) else digits (nat i))"

text \<open>
  An exception is a value. \<open>KeyError k\<close> is the error of a dictionary read at a key
  \<open>k\<close> that the dictionary lacks; \<open>Exception m\<close> stands for any other exception, with
  \<open>m\<close> its \<open>str(e)\<close>.
\<close>

datatype exn = KeyError string | Exception string

fun str_exn :: "exn \<Rightarrow> string" where
  "str_exn (KeyError k) = [CHR 0x27] @ k @ [CHR 0x27]"
| "str_exn (Exception m) = m"


section \<open>Turn segmentation: \<open>create_transcript\<close> (src/utils.py, src/app.py)\<close>

text \<open>
  A word record is a dictionary; the loop reads its keys \<open>"speaker"\<close> and
  \<open>"punctuated_word"\<close> and no other. A field is \<open>None\<close> when the dictionary lacks the
  key, so that the \<open>KeyError\<close> of the read is a branch of the model.
\<close>

record word_struct =
  speaker :: "int option"
  punctuated_word :: "string option"

definition speaker_tag :: "int \<Rightarrow> string" where
  "speaker_tag curr_speaker = ''SPEAKER '' @ str_int curr_speaker @ '':''"

text \<open>
  The \<open>for word_struct in words\<close> loop, on its three variables \<open>lines\<close>,
  \<open>curr_speaker\<close> and \<open>curr_line\<close>. The speaker is read before the word.
\<close>

fun transcript_loop ::
  "string list \<Rightarrow> int \<Rightarrow> string \<Rightarrow> word_struct list \<Rightarrow> exn + (string list \<times> int \<times> string)"
where
  "transcript_loop lines curr_speaker curr_line [] = Inr (lines, curr_speaker, curr_line)"
| "transcript_loop lines curr_speaker curr_line (w # ws) =
     (case speaker w of
        None \<Rightarrow> Inl (KeyError ''speaker'')
      | Some word_speaker \<Rightarrow>
          (case punctuated_word w of
             None \<Rightarrow> Inl (KeyError ''punctuated_word'')
           | Some word \<Rightarrow>
               if word_speaker = curr_speaker
               then transcript_loop lines curr_speaker (curr_line @ '' '' @ word) ws
               else transcript_loop
                      (lines @ [speaker_tag curr_speaker @ curr_line @ ''\<newline>''])
                      word_speaker ('' '' @ word) ws))"

text \<open>
  \<open>create_transcript\<close> from the word list on: \<open>curr_speaker = 0\<close>, \<open>curr_line = ''\<close>,
  the loop, the final line, and \<open>'\n'.join(lines)\<close>. Both copies of the function
  (src/utils.py and src/app.py) have this body; the one in src/utils.py logs the
  exception and raises it again, the one in src/app.py lets it pass.
\<close>

definition create_transcript :: "word_struct list \<Rightarrow> exn + string" where
  "create_transcript words =
     (case transcript_loop [] 0 [] words of
        Inl e \<Rightarrow> Inl e
      | Inr (lines, curr_speaker, curr_line) \<Rightarrow>
          Inr (join ''\<newline>'' (lines @ [speaker_tag curr_speaker @ curr_line])))"

text \<open>
  The turns behind the lines. A line of the loop is \<open>"SPEAKER n:" + curr_line\<close>; the
  turn is the pair \<open>(n, curr_line)\<close> it is made of. \<open>segment_loop\<close> is \<open>transcript_loop\<close>
  with the pair kept in place of the line, and \<open>render_turns\<close> gives the lines back
  (lemma \<open>create_transcript_segment\<close>).
\<close>

type_synonym turn = "int \<times> string"

fun segment_loop ::
  "turn list \<Rightarrow> int \<Rightarrow> string \<Rightarrow> word_struct list \<Rightarrow> exn + (turn list \<times> int \<times> string)"
where
  "segment_loop turns curr_speaker curr_line [] = Inr (turns, curr_speaker, curr_line)"
| "segment_loop turns curr_speaker curr_line (w # ws) =
     (case speaker w of
        None \<Rightarrow> Inl (KeyError ''speaker'')
      | Some word_speaker \<Rightarrow>
          (case punctuated_word w of
             None \<Rightarrow> Inl (KeyError ''punctuated_word'')
           | Some word \<Rightarrow>
               if word_speaker = curr_speaker
               then segment_loop turns curr_speaker (curr_line @ '' '' @ word) ws
               else segment_loop (turns @ [(curr_speaker, curr_line)])
                      word_speaker ('' '' @ word) ws))"

definition segment :: "word_struct list \<Rightarrow> exn + turn list" where
  "segment words =
     (case segment_loop [] 0 [] words of
        Inl e \<Rightarrow> Inl e
      | Inr (turns, curr_speaker, curr_line) \<Rightarrow> Inr (turns @ [(curr_speaker, curr_line)]))"

definition closed_line :: "turn \<Rightarrow> string" where
  "closed_line t = speaker_tag (fst t) @ snd t @ ''\<newline>''"

definition final_line :: "turn \<Rightarrow> string" where
  "final_line t = speaker_tag (fst t) @ snd t"

definition render_turns :: "turn list \<Rightarrow> string" where
  "render_turns turns =
     join ''\<newline>'' (map closed_line (butlast turns) @ map final_line [last turns])"

text \<open>A well-formed word record, with both fields.\<close>

definition mk_word :: "int \<times> string \<Rightarrow> word_struct" where
  "mk_word p = \<lparr>speaker = Some (fst p), punctuated_word = Some (snd p)\<rparr>"

text \<open>
  The specification's side of the segmentation. \<open>runs\<close> partitions a word sequence
  into its maximal runs of equal speaker id, each run with its word texts in order.
\<close>

fun runs :: "(int \<times> string) list \<Rightarrow> (int \<times> string list) list" where
  "runs [] = []"
| "runs (p # ps) =
     (case runs ps of
        [] \<Rightarrow> [(fst p, [snd p])]
      | r # rs \<Rightarrow>
          if fst r = fst p then (fst p, snd p # snd r) # rs
          else (fst p, [snd p]) # r # rs)"

definition run_words :: "int \<times> string list \<Rightarrow> (int \<times> string) list" where
  "run_words r = map (Pair (fst r)) (snd r)"

text \<open>The text the loop builds for a run: every word with one space before it.\<close>

definition run_turn :: "int \<times> string list \<Rightarrow> turn" where
  "run_turn r = (fst r, concat (map (\<lambda>t. '' '' @ t) (snd r)))"

text \<open>
  The turn the loop emits for its initial \<open>curr_speaker = 0\<close> when no run of speaker
  0 opens the input.
\<close>

definition leading_turn :: "(int \<times> string) list \<Rightarrow> turn list" where
  "leading_turn ps =
     (case ps of [] \<Rightarrow> [(0, [])] | p # _ \<Rightarrow> if fst p = 0 then [] else [(0, [])])"

text \<open>
  The specification's algorithm, in its words: \<open>current_speaker\<close> starts as the first
  word's speaker, or as 0 on the empty input.
\<close>

definition spec_segment :: "word_struct list \<Rightarrow> exn + turn list" where
  "spec_segment words =
     (case segment_loop []
             (case words of [] \<Rightarrow> 0 | w # _ \<Rightarrow> (case speaker w of None \<Rightarrow> 0 | Some s \<Rightarrow> s))
             [] words of
        Inl e \<Rightarrow> Inl e
      | Inr (turns, curr_speaker, curr_line) \<Rightarrow> Inr (turns @ [(curr_speaker, curr_line)]))"

text \<open>
  The turns of a loop that holds the open turn \<open>t\<close> and still has the runs \<open>rs\<close> to
  read: a first run of the open turn's speaker goes on in it.
\<close>

definition carry :: "turn \<Rightarrow> (int \<times> string list) list \<Rightarrow> turn list" where
  "carry t rs =
     (case rs of
        [] \<Rightarrow> [t]
      | r # rs' \<Rightarrow>
          if fst r = fst t then (fst t, snd t @ snd (run_turn r)) # map run_turn rs'
          else t # map run_turn rs)"


section \<open>Live transcript collection (src/deepgram_live.py, live_speech.py)\<close>

text \<open>
  Both files define a class \<open>TranscriptCollector\<close> over the one field
  \<open>transcript_parts\<close>. \<open>reset\<close> is the same in both; \<open>add_part\<close> differs, and
  \<open>get_full_transcript\<close> (src/deepgram_live.py) and \<open>get_transcript\<close> (live_speech.py)
  have the same body.
\<close>

record TranscriptCollector =
  transcript_parts :: "string list"

definition reset :: "TranscriptCollector \<Rightarrow> TranscriptCollector" where
  "reset self = self\<lparr>transcript_parts := []\<rparr>"

definition TranscriptCollector_init :: TranscriptCollector where
  "TranscriptCollector_init = reset \<lparr>transcript_parts = []\<rparr>"

text \<open>src/deepgram_live.py: \<open>self.transcript_parts.append(part)\<close>.\<close>

definition add_part :: "TranscriptCollector \<Rightarrow> string \<Rightarrow> TranscriptCollector" where
  "add_part self part = self\<lparr>transcript_parts := transcript_parts self @ [part]\<rparr>"

definition get_full_transcript :: "TranscriptCollector \<Rightarrow> string" where
  "get_full_transcript self = join '' '' (transcript_parts self)"

text \<open>live_speech.py: \<open>if part.strip(): self.transcript_parts.append(part)\<close>.\<close>

definition live_speech_add_part :: "TranscriptCollector \<Rightarrow> string \<Rightarrow> TranscriptCollector" where
  "live_speech_add_part self part =
     (if strip part \<noteq> [] then self\<lparr>transcript_parts := transcript_parts self @ [part]\<rparr>
      else self)"

definition get_transcript :: "TranscriptCollector \<Rightarrow> string" where
  "get_transcript self = join '' '' (transcript_parts self)"

text \<open>
  A recognition result, with the three fields the handlers read.
\<close>

record result =
  transcript :: string
  is_final :: bool
  speech_final :: bool

text \<open>
  The transcriber. \<open>transcription_complete\<close> is \<open>None\<close> before \<open>process_audio\<close> creates
  the \<open>asyncio.Event\<close>, and \<open>Some b\<close> afterwards, \<open>b\<close> the event's flag. The calls of the
  callback and the output of \<open>print\<close> are effects on the world: \<open>invoked\<close> lists the
  arguments of the callback's invocations, in order, and \<open>printed\<close> the printed lines.
  The callback is \<open>None\<close> when \<open>self.callback\<close> is; otherwise it is a function that
  answers \<open>None\<close> when the call returns and \<open>Some e\<close> when it raises \<open>e\<close>.
\<close>

record DeepgramLiveTranscriber =
  transcript_collector :: TranscriptCollector
  transcription_complete :: "bool option"
  invoked :: "string list"
  printed :: "string list"

type_synonym callback = "(string \<Rightarrow> exn option) option"

definition DeepgramLiveTranscriber_init :: DeepgramLiveTranscriber where
  "DeepgramLiveTranscriber_init =
     \<lparr>transcript_collector = TranscriptCollector_init, transcription_complete = None,
      invoked = [], printed = []\<rparr>"

text \<open>\<open>if self.callback: self.callback(full_sentence)\<close>\<close>

definition call_callback ::
  "callback \<Rightarrow> string \<Rightarrow> DeepgramLiveTranscriber \<Rightarrow> exn \<times> DeepgramLiveTranscriber + DeepgramLiveTranscriber"
where
  "call_callback cb full_sentence self =
     (case cb of
        None \<Rightarrow> Inr self
      | Some f \<Rightarrow>
          (let self' = self\<lparr>invoked := invoked self @ [full_sentence]\<rparr>
           in case f full_sentence of None \<Rightarrow> Inr self' | Some e \<Rightarrow> Inl (e, self')))"

text \<open>\<open>if self.transcription_complete: self.transcription_complete.set()\<close>\<close>

definition set_complete :: "DeepgramLiveTranscriber \<Rightarrow> DeepgramLiveTranscriber" where
  "set_complete self =
     (case transcription_complete self of
        None \<Rightarrow> self
      | Some _ \<Rightarrow> self\<lparr>transcription_complete := Some True\<rparr>)"

text \<open>
  \<open>on_message\<close>, lines 48 to 72. An exception of the callback leaves the \<open>try\<close> block
  at line 64 and is printed by the handler of line 71.
\<close>

definition on_message :: "callback \<Rightarrow> DeepgramLiveTranscriber \<Rightarrow> result \<Rightarrow> DeepgramLiveTranscriber" where
  "on_message cb self r =
     (let sentence = transcript r
      in if strip sentence = [] then self
         else if \<not> speech_final r
         then self\<lparr>transcript_collector := add_part (transcript_collector self) sentence\<rparr>
         else
           (let self1 = self\<lparr>transcript_collector := add_part (transcript_collector self) sentence\<rparr>;
                full_sentence = get_full_transcript (transcript_collector self1)
            in case (if strip full_sentence \<noteq> [] then call_callback cb full_sentence self1
                     else Inr self1) of
                 Inl (e, self2) \<Rightarrow>
                   self2\<lparr>printed := printed self2 @ [''Error processing message: '' @ str_exn e]\<rparr>
               | Inr self2 \<Rightarrow>
                   set_complete (self2\<lparr>transcript_collector := reset (transcript_collector self2)\<rparr>)))"

definition on_error :: "DeepgramLiveTranscriber \<Rightarrow> string \<Rightarrow> DeepgramLiveTranscriber" where
  "on_error self error = self\<lparr>printed := printed self @ [''Deepgram error: '' @ error]\<rparr>"

definition on_close :: "DeepgramLiveTranscriber \<Rightarrow> int \<Rightarrow> string \<Rightarrow> DeepgramLiveTranscriber" where
  "on_close self code reason =
     self\<lparr>printed := printed self @
       [''Connection closed with code '' @ str_int code @ '': '' @ reason]\<rparr>"

definition on_metadata :: "DeepgramLiveTranscriber \<Rightarrow> string \<Rightarrow> DeepgramLiveTranscriber" where
  "on_metadata self metadata =
     self\<lparr>printed := printed self @ [''Received metadata: '' @ metadata]\<rparr>"

text \<open>\<open>stop\<close>: sets the event when there is one.\<close>

definition stop :: "DeepgramLiveTranscriber \<Rightarrow> DeepgramLiveTranscriber" where
  "stop self = set_complete self"

text \<open>
  What reaches a session: the four events \<open>process_audio\<close> registers a handler for,
  and a call of \<open>stop\<close>.
\<close>

datatype session_input =
  Transcript result
| Error string
| Close int string
| Metadata string
| Stop

fun dispatch :: "callback \<Rightarrow> DeepgramLiveTranscriber \<Rightarrow> session_input \<Rightarrow> DeepgramLiveTranscriber" where
  "dispatch cb self (Transcript r) = on_message cb self r"
| "dispatch cb self (Error error) = on_error self error"
| "dispatch cb self (Close code reason) = on_close self code reason"
| "dispatch cb self (Metadata metadata) = on_metadata self metadata"
| "dispatch cb self Stop = stop self"

text \<open>
  \<open>process_audio\<close>, lines 102 to 140. The session runs on one asyncio event loop, and
  \<open>on_message\<close> and the other handlers contain no \<open>await\<close>: each handler call runs to its
  end before anything else does, so a session is a sequence of handler calls, with the
  coroutine of \<open>process_audio\<close> resuming between two of them. What the code leaves to the
  event loop and to the world outside is a parameter of the model:
  \<^item> \<open>setup_error\<close>: the exception that \<open>setup_connection\<close>, \<open>connection.start\<close> or
    \<open>audio_source.start\<close> raises, if one does;
  \<^item> \<open>cancel_at\<close>: \<open>Some k\<close> when the task is cancelled while it awaits the event, after
    \<open>k\<close> inputs were handled;
  \<^item> \<open>wake_lag\<close>: how many further inputs the handlers take between the moment the
    event is set (or the task cancelled) and the moment the awaiting coroutine resumes;
  \<^item> \<open>finish_lag\<close>: how many further inputs the handlers take until
    \<open>connection.finish()\<close> has run, the handlers being registered until then;
  \<^item> \<open>teardown_error\<close>: the exception that \<open>audio_source.stop\<close> or
    \<open>connection.finish\<close> raises, if one does.
\<close>

record session_env =
  setup_error :: "exn option"
  cancel_at :: "nat option"
  wake_lag :: nat
  finish_lag :: nat
  teardown_error :: "exn option"

text \<open>
  A session is \<open>Waiting\<close> when its inputs ran out while \<open>process_audio\<close> awaits the
  event, \<open>Finished\<close> when \<open>process_audio\<close> returned, and \<open>Raised e\<close> when the handler of
  line 138 printed \<open>e\<close> and raised it again.
\<close>

datatype session_status = Waiting | Finished | Raised exn

text \<open>
  The end of a session, from the moment the wait is over: the inputs handled before
  the coroutine resumes, the \<open>except asyncio.CancelledError\<close> clause when the task was
  cancelled, and the \<open>finally\<close> block, with the inputs handled until the connection is
  finished. The inputs after those are not handled.
\<close>

definition finish_session ::
  "callback \<Rightarrow> session_env \<Rightarrow> bool \<Rightarrow> DeepgramLiveTranscriber \<Rightarrow> session_input list
     \<Rightarrow> session_status \<times> DeepgramLiveTranscriber \<times> session_input list"
where
  "finish_session cb env cancelled self rest =
     (let self1 = foldl (dispatch cb) self (take (wake_lag env) rest);
          self2 = (if cancelled
                   then self1\<lparr>printed := printed self1 @ [''Transcription cancelled'']\<rparr>
                   else self1);
          self3 = foldl (dispatch cb) self2 (take (finish_lag env) (drop (wake_lag env) rest));
          left = drop (finish_lag env) (drop (wake_lag env) rest)
      in case teardown_error env of
           None \<Rightarrow> (Finished, self3, left)
         | Some e \<Rightarrow>
             (Raised e,
              self3\<lparr>printed := printed self3 @ [''Error in process_audio: '' @ str_exn e]\<rparr>,
              left))"

text \<open>
  The wait of line 130, with \<open>k\<close> inputs handled so far: it is over when the task is
  cancelled or when a handler has set the event, and goes on otherwise.
\<close>

fun deliver ::
  "callback \<Rightarrow> session_env \<Rightarrow> DeepgramLiveTranscriber \<Rightarrow> nat \<Rightarrow> session_input list
     \<Rightarrow> session_status \<times> DeepgramLiveTranscriber \<times> session_input list"
where
  "deliver cb env self k [] =
     (if cancel_at env = Some k then finish_session cb env True self []
      else (Waiting, self, []))"
| "deliver cb env self k (i # rest) =
     (if cancel_at env = Some k then finish_session cb env True self (i # rest)
      else
        (let self' = dispatch cb self i
         in if transcription_complete self' = Some True
            then finish_session cb env False self' rest
            else deliver cb env self' (Suc k) rest))"

definition process_audio ::
  "DeepgramLiveTranscriber \<Rightarrow> callback \<Rightarrow> session_env \<Rightarrow> session_input list
     \<Rightarrow> session_status \<times> DeepgramLiveTranscriber \<times> session_input list"
where
  "process_audio self cb env inputs =
     (let self' = self\<lparr>transcription_complete := Some False\<rparr>
      in case setup_error env of
           Some e \<Rightarrow>
             (Raised e,
              self'\<lparr>printed := printed self' @ [''Error in process_audio: '' @ str_exn e]\<rparr>,
              inputs)
         | None \<Rightarrow> deliver cb env self' 0 inputs)"

text \<open>
  The inputs that leave a waiting session waiting: an error, close or metadata event,
  and a result that is blank or does not end an utterance.
\<close>

fun quiet :: "session_input \<Rightarrow> bool" where
  "quiet (Transcript r) = (strip (transcript r) = [] \<or> \<not> speech_final r)"
| "quiet (Error error) = True"
| "quiet (Close code reason) = True"
| "quiet (Metadata metadata) = True"
| "quiet Stop = False"

text \<open>The session of the scenario, and the data of the examples below.\<close>

definition prompt_env :: "nat \<Rightarrow> nat \<Rightarrow> exn option \<Rightarrow> session_env" where
  "prompt_env w n t =
     \<lparr>setup_error = None, cancel_at = None, wake_lag = w, finish_lag = n, teardown_error = t\<rparr>"

definition live_results :: "result list" where
  "live_results =
     [\<lparr>transcript = ''Hel'', is_final = False, speech_final = False\<rparr>,
      \<lparr>transcript = ''Hello'', is_final = True, speech_final = False\<rparr>,
      \<lparr>transcript = '' world'', is_final = True, speech_final = True\<rparr>]"

definition live_events :: "session_input list" where
  "live_events = map Transcript live_results"

definition raising :: "string \<Rightarrow> exn option" where
  "raising full_sentence = Some (Exception ''boom'')"

definition returning :: "string \<Rightarrow> exn option" where
  "returning full_sentence = None"

definition heard_Hi :: DeepgramLiveTranscriber where
  "heard_Hi =
     \<lparr>transcript_collector = \<lparr>transcript_parts = [''Hi'']\<rparr>,
      transcription_complete = Some False, invoked = [], printed = []\<rparr>"

definition final_there :: result where
  "final_there = \<lparr>transcript = ''there'', is_final = True, speech_final = True\<rparr>"

text \<open>
  What a session of the returning callback does with three results that each end an
  utterance: its status, the callback's invocations, and how many inputs were left.
\<close>

definition process_audio_outcome :: "session_env \<Rightarrow> session_status \<times> string list \<times> nat" where
  "process_audio_outcome env =
     (case process_audio DeepgramLiveTranscriber_init (Some returning) env
             [Transcript final_there, Transcript final_there, Transcript final_there] of
        (status, self, left) \<Rightarrow> (status, invoked self, length left))"


section \<open>Minutes generation (src/mom_generator.py)\<close>

text \<open>
  The language-model service is a parameter: \<open>create k prompt\<close> is the outcome of the
  request with content \<open>prompt\<close> when \<open>k\<close> requests were made before it, \<open>Inr content\<close>
  when \<open>response.choices[0].message.content\<close> is read and \<open>Inl e\<close> when the \<open>try\<close> block
  raises \<open>e\<close>. The other fields of a request are constants of the source. Each function
  returns its result with the prompts of the requests it made, in order, and the lines
  it printed.
\<close>

type_synonym service = "nat \<Rightarrow> string \<Rightarrow> exn + string"

definition translate_prompt :: "string \<Rightarrow> string \<Rightarrow> string" where
  "translate_prompt text target_language =
     ''\<newline>'' @
     ''        Translate the following diarized output to '' @
     target_language @
     '':\<newline>'' @
     ''        \<newline>'' @
     ''        '' @
     text @
     ''\<newline>'' @
     ''        \<newline>'' @
     ''        This is output text from a diarization model having multiple speakers. \<newline>'' @
     ''        Find the person names from the output text given here and replace the speaker ids \<newline>'' @
     ''        with corresponding person names. Generate complete words in '' @
     target_language @
     ''.\<newline>'' @
     ''        Give the output in conversational manner.\<newline>'' @
     ''        ''"

definition translate_text ::
  "service \<Rightarrow> string \<Rightarrow> string \<Rightarrow> (exn + string) \<times> string list \<times> string list"
where
  "translate_text create text target_language =
     (if lower target_language = ''english'' then (Inr text, [], [])
      else
        (let prompt = translate_prompt text target_language
         in case create 0 prompt of
              Inr content \<Rightarrow> (Inr content, [prompt], [])
            | Inl e \<Rightarrow> (Inl e, [prompt], [''Translation error: '' @ str_exn e])))"

text \<open>\<open>create_mom_prompt\<close>; \<open>current_date\<close> is \<open>datetime.now().strftime("%d-%m-%Y")\<close>.\<close>

definition create_mom_prompt :: "string \<Rightarrow> string \<Rightarrow> string \<Rightarrow> string" where
  "create_mom_prompt current_date meeting_transcript language =
     ''\<newline>'' @
     ''        You are a professional Minutes of Meeting generator. Using the conversation transcript below:\<newline>'' @
     ''        \<newline>'' @
     ''        1. Identify all participants and their roles\<newline>'' @
     ''        2. Create a concise summary of the main discussion points\<newline>'' @
     ''        3. List all decisions made during the meeting\<newline>'' @
     ''        4. Create a detailed table containing:\<newline>'' @
     ''           - Tasks assigned\<newline>'' @
     ''           - Person responsible\<newline>'' @
     ''           - Current status\<newline>'' @
     ''           - Deadlines\<newline>'' @
     ''        5. Note any follow-up actions required\<newline>'' @
     ''        6. Include any important dates mentioned\<newline>'' @
     ''        \<newline>'' @
     ''        Today's date is '' @
     current_date @
     ''.\<newline>'' @
     ''        Generate the Minutes of Meeting in '' @
     language @
     '' only.\<newline>'' @
     ''        Format the output in a professional manner with clear sections and bullet points.\<newline>'' @
     ''\<newline>'' @
     ''        Transcript:\<newline>'' @
     ''        '' @
     meeting_transcript @
     ''\<newline>'' @
     ''        ''"

text \<open>\<open>range(n)\<close> for a Python integer \<open>n\<close>: empty when \<open>n \<le> 0\<close>.\<close>

definition range :: "int \<Rightarrow> int list" where
  "range n = map int [0..<nat n]"

text \<open>
  The \<open>for attempt in range(max_retries)\<close> loop of \<open>generate_mom\<close>, over the attempts
  still to make. The result is \<open>Inr (Some content)\<close> for \<open>return content\<close>, \<open>Inl e\<close> for
  the \<open>raise\<close> of line 120, and \<open>Inr None\<close> when the loop ends and the function returns
  \<open>None\<close>.
\<close>

fun retry_loop ::
  "service \<Rightarrow> string \<Rightarrow> int \<Rightarrow> int list \<Rightarrow> string list \<Rightarrow> string list
     \<Rightarrow> (exn + string option) \<times> string list \<times> string list"
where
  "retry_loop create prompt max_retries [] sent out = (Inr None, sent, out)"
| "retry_loop create prompt max_retries (attempt # rest) sent out =
     (case create (length sent) prompt of
        Inr content \<Rightarrow> (Inr (Some content), sent @ [prompt], out)
      | Inl e \<Rightarrow>
          if attempt = max_retries - 1
          then (Inl e, sent @ [prompt],
                out @ [''Failed to generate MoM after '' @ str_int max_retries @
                       '' attempts: '' @ str_exn e])
          else retry_loop create prompt max_retries rest (sent @ [prompt])
                 (out @ [''Attempt '' @ str_int (attempt + 1) @ '' failed, retrying...'']))"

definition generate_mom ::
  "service \<Rightarrow> string \<Rightarrow> string \<Rightarrow> string \<Rightarrow> int
     \<Rightarrow> (exn + string option) \<times> string list \<times> string list"
where
  "generate_mom create current_date meeting_transcript language max_retries =
     retry_loop create (create_mom_prompt current_date meeting_transcript language) max_retries
       (range max_retries) [] []"

text \<open>
  The specification's side of the retry loop: the number of attempts it allows when
  \<open>a\<close> were made and \<open>n\<close> are the limit, which is one more than the index of the
  first attempt from \<open>a\<close> on that succeeds, or \<open>n\<close> when none below \<open>n\<close> does. Then
  two services for the examples: one that fails twice and then succeeds, one that
  always fails.
\<close>

definition attempts_made :: "service \<Rightarrow> string \<Rightarrow> nat \<Rightarrow> nat \<Rightarrow> nat" where
  "attempts_made create prompt a n =
     (case find (\<lambda>k. \<not> isl (create k prompt)) [a..<n] of Some k \<Rightarrow> Suc k | None \<Rightarrow> n)"

definition flaky :: service where
  "flaky k prompt = (if k < 2 then Inl (Exception ''timeout'') else Inr ''minutes'')"

definition failing :: service where
  "failing k prompt = Inl (Exception (''failure '' @ str_int (int k)))"


section \<open>Properties of the string operations\<close>

lemma strip_eq_Nil_iff: "strip s = [] \<longleftrightarrow> list_all isspace s"
proof -
  have "dropWhile isspace (rev (dropWhile isspace s)) = [] \<longleftrightarrow> dropWhile isspace s = []"
  proof (cases "dropWhile isspace s")
    case Nil
    then show ?thesis by (simp del: dropWhile_eq_Nil_conv)
  next
    case (Cons a as)
    then have "\<not> isspace a"
      by (metis hd_dropWhile list.distinct(1) list.sel(1))
    then have "\<not> (\<forall>x\<in>set (rev (dropWhile isspace s)). isspace x)"
      using Cons by auto
    then show ?thesis
      using Cons by (simp add: dropWhile_eq_Nil_conv)
  qed
  then show ?thesis
    by (simp add: strip_def dropWhile_eq_Nil_conv list_all_iff)
qed

lemma join_snoc: "join sep (xs @ [x]) = (if xs = [] then x else join sep xs @ sep @ x)"
  by (induction sep xs rule: join.induct) auto

lemma set_join_last: "set x \<subseteq> set (join sep (xs @ [x]))"
  by (auto simp: join_snoc)

lemma strip_join_snoc: "strip x \<noteq> [] \<Longrightarrow> strip (join sep (xs @ [x])) \<noteq> []"
  using set_join_last [of x sep xs] by (auto simp: strip_eq_Nil_iff list_all_iff)

lemma isspace_space: "isspace CHR '' ''"
  by (simp add: isspace_def)


section \<open>The transcript collector\<close>

lemma parts_foldl_add_part:
  "transcript_parts (foldl add_part c fs) = transcript_parts c @ fs"
  by (induction fs arbitrary: c) (simp_all add: add_part_def)

lemma full_sentence_not_blank:
  "strip (transcript r) \<noteq> [] \<Longrightarrow>
   strip (get_full_transcript (add_part (transcript_collector self) (transcript r))) \<noteq> []"
  by (simp add: get_full_transcript_def add_part_def strip_join_snoc)

text \<open>
  Claim C4, as the code has it. The collector has no single finalize operation: a
  result that ends an utterance makes \<open>on_message\<close> read the full transcript (line 60),
  invoke the callback with it (line 64) and reset the collector (line 66). The parts
  are kept in the order \<open>add_part\<close> appended them. For every state of the transcriber,
  the callback receives the parts collected so far and the new sentence, joined by
  single spaces. When the callback returns, or when none is registered, the collector
  is left with no part, and a read of the full transcript right after returns the
  empty string; when the callback raises, the collector keeps its parts and the read
  returns the same text again.
\<close>

theorem on_message_reads_then_resets:
  "strip (transcript r) \<noteq> [] \<Longrightarrow> speech_final r \<Longrightarrow>
   transcript_parts (foldl add_part c fs) = transcript_parts c @ fs
   \<and> invoked (on_message (Some f) self r)
       = invoked self @
         [join '' '' (transcript_parts (transcript_collector self) @ [transcript r])]
   \<and> transcript_parts (transcript_collector (on_message (Some f) self r))
       = (case f (join '' '' (transcript_parts (transcript_collector self) @ [transcript r])) of
            None \<Rightarrow> []
          | Some e \<Rightarrow> transcript_parts (transcript_collector self) @ [transcript r])
   \<and> get_full_transcript (transcript_collector (on_message (Some f) self r))
       = (case f (join '' '' (transcript_parts (transcript_collector self) @ [transcript r])) of
            None \<Rightarrow> []
          | Some e \<Rightarrow> join '' '' (transcript_parts (transcript_collector self) @ [transcript r]))
   \<and> transcript_parts (transcript_collector (on_message None self r)) = []
   \<and> get_full_transcript (transcript_collector (on_message None self r)) = []
   \<and> invoked (on_message None self r) = invoked self"
proof -
  assume a: "strip (transcript r) \<noteq> []" and b: "speech_final r"
  have ne: "strip (join '' '' (transcript_parts (transcript_collector self) @ [transcript r])) \<noteq> []"
    using a by (rule strip_join_snoc)
  have sc: "transcript_collector (set_complete s) = transcript_collector s
      \<and> invoked (set_complete s) = invoked s" for s
    by (simp add: set_complete_def split: option.splits)
  have i: "invoked (on_message (Some f) self r)
       = invoked self @
         [join '' '' (transcript_parts (transcript_collector self) @ [transcript r])]"
    using a b ne
    by (simp add: on_message_def Let_def call_callback_def add_part_def get_full_transcript_def
          sc split: option.splits)
  have p: "transcript_parts (transcript_collector (on_message (Some f) self r))
       = (case f (join '' '' (transcript_parts (transcript_collector self) @ [transcript r])) of
            None \<Rightarrow> []
          | Some e \<Rightarrow> transcript_parts (transcript_collector self) @ [transcript r])"
    using a b ne
    by (simp add: on_message_def Let_def call_callback_def add_part_def get_full_transcript_def
          reset_def sc split: option.splits)
  have n: "transcript_parts (transcript_collector (on_message None self r)) = []"
    "invoked (on_message None self r) = invoked self"
    using a b ne
    by (simp_all add: on_message_def Let_def call_callback_def add_part_def
          get_full_transcript_def reset_def sc)
  show ?thesis
    using i p n
    by (simp add: parts_foldl_add_part get_full_transcript_def split: option.splits)
qed

theorem on_message_reads_then_resets_witness:
  "strip (transcript final_there) \<noteq> [] \<and> speech_final final_there
   \<and> invoked (on_message (Some returning) heard_Hi final_there) = [''Hi there'']
   \<and> transcript_parts (transcript_collector (on_message (Some returning) heard_Hi final_there))
       = []
   \<and> get_full_transcript (transcript_collector (on_message (Some returning) heard_Hi final_there))
       = []"
proof -
  have a: "strip (transcript final_there) \<noteq> []"
    by (simp add: final_there_def strip_eq_Nil_iff isspace_def)
  have b: "speech_final final_there"
    by (simp add: final_there_def)
  show ?thesis
    using a b on_message_reads_then_resets [OF a b, of _ _ returning heard_Hi]
    by (simp add: final_there_def heard_Hi_def returning_def)
qed

text \<open>
  The claim C4 as stated fails: with the part \<open>Hi\<close> collected, the final result \<open>there\<close>
  and a callback that raises, the collector is not cleared, and the read right after
  returns \<open>Hi there\<close> and not the empty string.
\<close>

theorem on_message_second_read_counterexample:
  "get_full_transcript (transcript_collector (on_message (Some raising) heard_Hi final_there))
     = ''Hi there''
   \<and> get_full_transcript (transcript_collector (on_message (Some raising) heard_Hi final_there))
     \<noteq> []"
proof -
  have "strip ''there'' \<noteq> []" "strip ''Hi there'' \<noteq> []"
    by (simp_all add: strip_eq_Nil_iff isspace_def)
  then show ?thesis
    by (simp add: on_message_def final_there_def heard_Hi_def raising_def add_part_def
          get_full_transcript_def call_callback_def Let_def)
qed


section \<open>Turn segmentation\<close>

lemma runs_Cons_head: "\<exists>ts rs. runs (p # ps) = (fst p, snd p # ts) # rs"
  by (cases "runs ps") auto

lemma run_turn_runs_Cons:
  "map run_turn (runs (p # ps)) = carry (fst p, '' '' @ snd p) (runs ps)"
  by (cases "runs ps") (auto simp: carry_def run_turn_def)

lemma carry_same:
  "fst p = cs \<Longrightarrow> carry (cs, cl) (runs (p # ps)) = carry (cs, cl @ '' '' @ snd p) (runs ps)"
  by (cases "runs ps") (auto simp: carry_def run_turn_def)

lemma carry_other:
  "fst p \<noteq> cs \<Longrightarrow> carry (cs, cl) (runs (p # ps)) = (cs, cl) # carry (fst p, '' '' @ snd p) (runs ps)"
  using runs_Cons_head [of p ps] run_turn_runs_Cons [of p ps]
  by (auto simp: carry_def)

lemma segment_loop_runs:
  "(case segment_loop turns cs cl (map mk_word ps) of
      Inl e \<Rightarrow> Inl e
    | Inr (turns', cs', cl') \<Rightarrow> Inr (turns' @ [(cs', cl')]))
   = (Inr (turns @ carry (cs, cl) (runs ps)) :: exn + turn list)"
proof (induction ps arbitrary: turns cs cl)
  case Nil
  then show ?case by (simp add: carry_def)
next
  case (Cons p ps)
  show ?case
  proof (cases "fst p = cs")
    case True
    then show ?thesis
      using Cons.IH [of turns cs "cl @ '' '' @ snd p"] carry_same [of p cs cl ps]
      by (simp add: mk_word_def)
  next
    case False
    then show ?thesis
      using Cons.IH [of "turns @ [(cs, cl)]" "fst p" "'' '' @ snd p"] carry_other [of p cs cl ps]
      by (simp add: mk_word_def)
  qed
qed

lemma carry_leading: "carry (0, []) (runs ps) = leading_turn ps @ map run_turn (runs ps)"
proof (cases ps)
  case Nil
  then show ?thesis by (simp add: carry_def leading_turn_def)
next
  case (Cons p ps')
  obtain ts rs where r: "runs (p # ps') = (fst p, snd p # ts) # rs"
    using runs_Cons_head by blast
  show ?thesis
    unfolding Cons r by (simp add: carry_def leading_turn_def run_turn_def)
qed

lemma segment_runs: "segment (map mk_word ps) = Inr (leading_turn ps @ map run_turn (runs ps))"
  using segment_loop_runs [of "[]" 0 "[]" ps] by (simp add: segment_def carry_leading)

lemma runs_partition: "concat (map run_words (runs ps)) = ps"
proof (induction ps)
  case Nil
  then show ?case by simp
next
  case (Cons p ps)
  then show ?case
    by (cases "runs ps") (auto simp: run_words_def split: if_splits)
qed

lemma runs_distinct_adj: "distinct_adj (map fst (runs ps))"
proof (induction ps)
  case Nil
  then show ?case by simp
next
  case (Cons p ps)
  then show ?case
    by (cases "runs ps") (auto split: if_splits)
qed

lemma runs_nonempty: "\<forall>r\<in>set (runs ps). snd r \<noteq> []"
proof (induction ps)
  case Nil
  then show ?case by simp
next
  case (Cons p ps)
  then show ?case
    by (cases "runs ps") (auto split: if_splits)
qed

lemma concat_spaced:
  "xs \<noteq> [] \<Longrightarrow> concat (map ((#) CHR '' '') xs) = CHR '' '' # join '' '' xs"
  by (induction "'' ''" xs rule: join.induct) auto

lemma drop_run_turn: "drop 1 (snd (run_turn r)) = join '' '' (snd r)"
  by (cases "snd r = []") (simp_all add: run_turn_def concat_spaced)

lemma transcript_loop_segment_loop:
  "transcript_loop (map closed_line turns) cs cl ws =
     map_sum id (\<lambda>(ts, s, l). (map closed_line ts, s, l)) (segment_loop turns cs cl ws)"
proof (induction ws arbitrary: turns cs cl)
  case Nil
  then show ?case by simp
next
  case (Cons w ws)
  show ?case
    using Cons.IH [of turns cs] Cons.IH [of "turns @ [(cs, cl)]"]
    by (simp add: closed_line_def split: option.splits)
qed

lemma create_transcript_segment:
  "create_transcript ws = map_sum id render_turns (segment ws)"
  using transcript_loop_segment_loop [of "[]" 0 "[]" ws]
  by (cases "segment_loop [] 0 [] ws")
     (auto simp: create_transcript_def segment_def render_turns_def final_line_def)

lemma distinct_adj_leading:
  "distinct_adj (map fst (leading_turn ps @ map run_turn (runs ps)))"
proof (cases ps)
  case Nil
  then show ?thesis by (simp add: leading_turn_def)
next
  case (Cons p ps')
  obtain ts rs where r: "runs (p # ps') = (fst p, snd p # ts) # rs"
    using runs_Cons_head by blast
  have m: "map fst (map run_turn (runs ps)) = map fst (runs ps)"
    by (simp add: run_turn_def comp_def)
  have d: "distinct_adj (map fst (runs (p # ps')))"
    by (rule runs_distinct_adj)
  show ?thesis
    using d unfolding Cons r
    by (cases "fst p = 0") (simp_all add: leading_turn_def run_turn_def comp_def)
qed


lemma runs_texts: "concat (map snd (runs ps)) = map snd ps"
proof (induction ps)
  case Nil
  then show ?case by simp
next
  case (Cons p ps)
  then show ?case
    by (cases "runs ps") (auto split: if_splits)
qed

lemma concat_turn_texts:
  "concat (map snd (leading_turn ps @ map run_turn (runs ps))) = concat (map ((#) CHR '' '') (map snd ps))"
proof -
  have l: "concat (map snd (leading_turn ps)) = []"
    by (auto simp: leading_turn_def split: list.splits)
  have "concat (map snd (map run_turn rs)) = concat (map ((#) CHR '' '') (concat (map snd rs)))" for rs
    by (induction rs) (simp_all add: run_turn_def)
  then show ?thesis
    using l by (simp add: runs_texts del: map_map)
qed

lemma drop_turn_texts:
  "drop 1 (concat (map snd (leading_turn ps @ map run_turn (runs ps)))) = join '' '' (map snd ps)"
  unfolding concat_turn_texts
  using concat_spaced [of "map snd ps"]
  by (cases "ps = []") (simp_all del: map_map)

text \<open>
  Claim C1. For every sequence of well-formed word records, \<open>segment\<close> returns the
  maximal speaker runs in order, each as the turn of its speaker whose text is the
  run's words with one space before each (after the empty turn of speaker 0 that the
  loop emits when no run of speaker 0 opens the input). So the texts of the turns,
  concatenated and without the leading space, are the word sequence joined by single
  spaces; each turn's text without its leading space is its run joined by single
  spaces; and the runs, with their speakers, are the word sequence. For the words
  \<open>[(0, Hi), (0, there), (1, Hello), (0, Bye)]\<close> the turns without their leading space
  are \<open>[(0, Hi there), (1, Hello), (0, Bye)]\<close>. The string \<open>create_transcript\<close> returns
  is the rendering of these turns, one \<open>SPEAKER n:\<close> line per turn with a blank line
  between.
\<close>

theorem segment_reconstructs_words:
  "segment (map mk_word ps) = Inr (leading_turn ps @ map run_turn (runs ps))
   \<and> drop 1 (concat (map snd (leading_turn ps @ map run_turn (runs ps)))) = join '' '' (map snd ps)
   \<and> map (apsnd (drop 1)) (map run_turn (runs ps)) = map (apsnd (join '' '')) (runs ps)
   \<and> concat (map run_words (runs ps)) = ps
   \<and> map_sum id (map (apsnd (drop 1)))
        (segment (map mk_word [(0, ''Hi''), (0, ''there''), (1, ''Hello''), (0, ''Bye'')]))
      = Inr [(0, ''Hi there''), (1, ''Hello''), (0, ''Bye'')]
   \<and> create_transcript (map mk_word ps)
      = Inr (render_turns (leading_turn ps @ map run_turn (runs ps)))
   \<and> create_transcript (map mk_word [(0, ''Hi''), (0, ''there''), (1, ''Hello''), (0, ''Bye'')])
      = Inr ''SPEAKER 0: Hi there\<newline>\<newline>SPEAKER 1: Hello\<newline>\<newline>SPEAKER 0: Bye''"
proof -
  have r: "create_transcript (map mk_word ps)
      = Inr (render_turns (leading_turn ps @ map run_turn (runs ps)))"
    by (simp add: create_transcript_segment segment_runs)
  have t: "create_transcript (map mk_word [(0, ''Hi''), (0, ''there''), (1, ''Hello''), (0, ''Bye'')])
      = Inr ''SPEAKER 0: Hi there\<newline>\<newline>SPEAKER 1: Hello\<newline>\<newline>SPEAKER 0: Bye''"
    by code_simp
  have c: "map (apsnd (drop 1)) (map run_turn (runs ps)) = map (apsnd (join '' '')) (runs ps)"
    using drop_run_turn by (simp add: apsnd_def map_prod_def case_prod_beta run_turn_def)
  have e: "map_sum id (map (apsnd (drop 1)))
        (segment (map mk_word [(0, ''Hi''), (0, ''there''), (1, ''Hello''), (0, ''Bye'')]))
      = Inr [(0, ''Hi there''), (1, ''Hello''), (0, ''Bye'')]"
    by (simp add: segment_def mk_word_def)
  show ?thesis
    using segment_runs drop_turn_texts c runs_partition e r t by blast
qed

lemma spec_segment_runs:
  "spec_segment (map mk_word ps) = Inr (if ps = [] then [(0, [])] else map run_turn (runs ps))"
proof (cases ps)
  case Nil
  then show ?thesis by (simp add: spec_segment_def)
next
  case (Cons p ps')
  obtain ts rs where r: "runs (p # ps') = (fst p, snd p # ts) # rs"
    using runs_Cons_head by blast
  have "carry (fst p, []) (runs (p # ps')) = map run_turn (runs (p # ps'))"
    unfolding r by (simp add: carry_def run_turn_def)
  then show ?thesis
    using segment_loop_runs [of "[]" "fst p" "[]" "p # ps'"] Cons
    by (simp add: spec_segment_def mk_word_def)
qed

text \<open>
  Claim C2, as the code has it. The loop starts with \<open>curr_speaker = 0\<close> whatever the
  input, where the specification's algorithm \<open>spec_segment\<close> starts with the first
  word's speaker. So \<open>segment\<close> emits the maximal speaker runs in the order they appear,
  after one empty turn for speaker 0 when the input is empty or its first word's
  speaker is not 0; \<open>spec_segment\<close> emits the runs alone (and the one empty turn on the
  empty input). No two adjacent turns that \<open>segment\<close> emits share a speaker id, and the
  empty input gives exactly the one empty turn of speaker 0.
\<close>

theorem segment_starts_at_speaker_0:
  "segment (map mk_word ps) = Inr (leading_turn ps @ map run_turn (runs ps))
   \<and> spec_segment (map mk_word ps) = Inr (if ps = [] then [(0, [])] else map run_turn (runs ps))
   \<and> distinct_adj (map fst (leading_turn ps @ map run_turn (runs ps)))
   \<and> distinct_adj (map fst (runs ps))
   \<and> segment [] = Inr [(0, [])]"
  using segment_runs [of ps] spec_segment_runs [of ps] distinct_adj_leading [of ps]
    runs_distinct_adj [of ps]
  by (simp add: segment_def)

text \<open>
  The claim C2 as stated fails on the one word \<open>(1, Hi)\<close>: the loop emits the empty
  turn of its initial speaker 0 before the turn of speaker 1, and the algorithm that
  starts with the first word's speaker does not.
\<close>

theorem segment_first_speaker_counterexample:
  "segment (map mk_word [(1, ''Hi'')]) = Inr [(0, []), (1, '' Hi'')]
   \<and> spec_segment (map mk_word [(1, ''Hi'')]) = Inr [(1, '' Hi'')]
   \<and> segment (map mk_word [(1, ''Hi'')]) \<noteq> spec_segment (map mk_word [(1, ''Hi'')])"
  by (simp add: segment_def spec_segment_def mk_word_def)

lemma segment_loop_malformed:
  "speaker w = None \<or> punctuated_word w = None \<Longrightarrow>
   segment_loop turns cs cl (map mk_word ps @ w # ws) = Inl (KeyError (if speaker w = None then ''speaker'' else ''punctuated_word''))"
proof (induction ps arbitrary: turns cs cl)
  case Nil
  then show ?case by (auto split: option.splits)
next
  case (Cons p ps)
  then show ?case by (simp add: mk_word_def)
qed

text \<open>
  Claim C9, as the code has it. When the first record that lacks a field is \<open>w\<close>,
  after any number of well-formed records and before any records at all,
  \<open>create_transcript\<close> fails with the \<open>KeyError\<close> of the read: it names the key
  \<open>speaker\<close> when \<open>w\<close> lacks the speaker and the key \<open>punctuated_word\<close> otherwise. No
  transcript is returned, so the record is not skipped.
\<close>

theorem create_transcript_malformed:
  "speaker w = None \<or> punctuated_word w = None \<Longrightarrow>
   create_transcript (map mk_word ps @ w # ws) = Inl (KeyError (if speaker w = None then ''speaker'' else ''punctuated_word''))
   \<and> segment (map mk_word ps @ w # ws) = Inl (KeyError (if speaker w = None then ''speaker'' else ''punctuated_word''))"
  using segment_loop_malformed [of w "[]" 0 "[]" ps ws]
  by (simp add: create_transcript_segment segment_def)

theorem create_transcript_malformed_witness:
  "create_transcript (map mk_word [(0, ''Hi'')] @ \<lparr>speaker = Some 1, punctuated_word = None\<rparr> # [])
     = Inl (KeyError ''punctuated_word'')
   \<and> segment (map mk_word [(0, ''Hi'')] @ \<lparr>speaker = Some 1, punctuated_word = None\<rparr> # [])
     = Inl (KeyError ''punctuated_word'')"
  using create_transcript_malformed [of "\<lparr>speaker = Some 1, punctuated_word = None\<rparr>" "[(0, ''Hi'')]" "[]"]
  by simp

text \<open>
  The claim C9 as stated fails: a record without speaker gives the same error at
  index 0 and at index 1, so the error does not name the index.
\<close>

theorem create_transcript_index_counterexample:
  "create_transcript [\<lparr>speaker = None, punctuated_word = Some ''Hi''\<rparr>] = Inl (KeyError ''speaker'')
   \<and> create_transcript [mk_word (0, ''Hi''), \<lparr>speaker = None, punctuated_word = Some ''Hi''\<rparr>]
       = Inl (KeyError ''speaker'')
   \<and> create_transcript [\<lparr>speaker = None, punctuated_word = Some ''Hi''\<rparr>]
       = create_transcript [mk_word (0, ''Hi''), \<lparr>speaker = None, punctuated_word = Some ''Hi''\<rparr>]"
  by (simp add: create_transcript_def mk_word_def)


section \<open>The live session\<close>

lemma strip_Hel: "strip ''Hel'' \<noteq> []" "strip ''Hello'' \<noteq> []" "strip '' world'' \<noteq> []"
  "strip ''Hel Hello  world'' \<noteq> []"
  by (simp_all add: strip_eq_Nil_iff isspace_def)

text \<open>
  Claim C3, as the code has it. \<open>on_message\<close> does not read \<open>is_final\<close>: a session that
  receives the three results \<open>("Hel", False, False)\<close>, \<open>("Hello", True, False)\<close> and
  \<open>(" world", True, True)\<close> appends all three transcripts, untrimmed, and joins them by
  single spaces. The registered callback is invoked exactly once, on the third
  result and not before, with the text \<open>"Hel Hello  world"\<close>.
\<close>

theorem live_scenario_callback:
  "invoked (fst (snd (process_audio DeepgramLiveTranscriber_init (Some f) (prompt_env w n t)
                        live_events)))
     = [''Hel Hello  world'']
   \<and> invoked (fst (snd (process_audio DeepgramLiveTranscriber_init (Some f) (prompt_env w n t)
                        (butlast live_events))))
     = []
   \<and> invoked (foldl (on_message (Some f)) DeepgramLiveTranscriber_init live_results)
     = [''Hel Hello  world'']"
  by (simp add: process_audio_def prompt_env_def finish_session_def live_events_def live_results_def
        DeepgramLiveTranscriber_init_def TranscriptCollector_init_def reset_def on_message_def
        add_part_def get_full_transcript_def call_callback_def set_complete_def strip_Hel Let_def
      split: option.splits)

text \<open>
  The claim C3 as stated fails: the text the callback receives in that session is not
  \<open>"Hello world"\<close>.
\<close>

theorem live_scenario_counterexample:
  "invoked (fst (snd (process_audio DeepgramLiveTranscriber_init (Some returning)
                        (prompt_env 0 0 None) live_events)))
     \<noteq> [''Hello world'']"
  by (simp add: process_audio_def prompt_env_def finish_session_def live_events_def live_results_def
        DeepgramLiveTranscriber_init_def TranscriptCollector_init_def reset_def on_message_def
        add_part_def get_full_transcript_def call_callback_def set_complete_def strip_Hel Let_def
        returning_def)

text \<open>
  Claim C5, as the code has it. \<open>add_part\<close> of live_speech.py appends a text that is
  not blank and leaves the collector as it is on a blank one, so that adding the empty
  string or three spaces does not change what \<open>get_transcript\<close> returns. \<open>add_part\<close> of
  src/deepgram_live.py appends every text; there the blank check is made by its caller
  \<open>on_message\<close>, which returns on a blank transcript with the transcriber unchanged.
\<close>

theorem add_part_blank:
  "list_all isspace (transcript r) \<Longrightarrow>
     live_speech_add_part c t =
       (if list_all isspace t then c else c\<lparr>transcript_parts := transcript_parts c @ [t]\<rparr>)
   \<and> get_transcript (live_speech_add_part c []) = get_transcript c
   \<and> get_transcript (live_speech_add_part c ''   '') = get_transcript c
   \<and> add_part c t = c\<lparr>transcript_parts := transcript_parts c @ [t]\<rparr>
   \<and> on_message cb self r = self"
  by (simp add: live_speech_add_part_def strip_eq_Nil_iff isspace_space add_part_def
        on_message_def)

theorem add_part_blank_witness:
  "list_all isspace ''   ''
   \<and> live_speech_add_part \<lparr>transcript_parts = [''Hello'']\<rparr> ''   ''
       = \<lparr>transcript_parts = [''Hello'']\<rparr>
   \<and> live_speech_add_part \<lparr>transcript_parts = [''Hello'']\<rparr> ''you''
       = \<lparr>transcript_parts = [''Hello'', ''you'']\<rparr>
   \<and> on_message (Some (\<lambda>_. None)) DeepgramLiveTranscriber_init
         \<lparr>transcript = ''   '', is_final = True, speech_final = True\<rparr>
       = DeepgramLiveTranscriber_init"
  using add_part_blank [of "\<lparr>transcript = ''   '', is_final = True, speech_final = True\<rparr>"
      "\<lparr>transcript_parts = [''Hello'']\<rparr>" "''   ''" "Some (\<lambda>_. None)"
      DeepgramLiveTranscriber_init]
    add_part_blank [of "\<lparr>transcript = ''   '', is_final = True, speech_final = True\<rparr>"
      "\<lparr>transcript_parts = [''Hello'']\<rparr>" "''you''" "Some (\<lambda>_. None)"
      DeepgramLiveTranscriber_init]
  by (simp add: isspace_def)

text \<open>
  The claim C5 as stated fails on the collector of src/deepgram_live.py: adding three
  spaces changes what \<open>get_full_transcript\<close> returns, and adding the empty string
  changes the collector.
\<close>

theorem add_part_blank_counterexample:
  "get_full_transcript (add_part \<lparr>transcript_parts = [''Hello'']\<rparr> ''   '') = ''Hello    ''
   \<and> get_full_transcript \<lparr>transcript_parts = [''Hello'']\<rparr> = ''Hello''
   \<and> add_part \<lparr>transcript_parts = [''Hello'']\<rparr> [] \<noteq> \<lparr>transcript_parts = [''Hello'']\<rparr>"
  by (simp add: get_full_transcript_def add_part_def)

text \<open>
  Claim C6, as the code has it. On a result that ends an utterance, \<open>on_message\<close>
  invokes the callback with the full sentence first and resets the collector after
  the callback has returned. When the callback raises, the exception is printed, and
  the collector keeps every part, the new sentence included, with the completion
  event as it was; when the callback returns, the collector is reset and the
  completion event is set.
\<close>

theorem on_message_reset_after_callback:
  "strip (transcript r) \<noteq> [] \<Longrightarrow> speech_final r \<Longrightarrow>
   on_message (Some f) self r =
     (let collected = add_part (transcript_collector self) (transcript r);
          full_sentence = get_full_transcript collected
      in case f full_sentence of
           Some e \<Rightarrow>
             self\<lparr>transcript_collector := collected,
                  invoked := invoked self @ [full_sentence],
                  printed := printed self @ [''Error processing message: '' @ str_exn e]\<rparr>
         | None \<Rightarrow>
             set_complete (self\<lparr>transcript_collector := reset collected,
                                invoked := invoked self @ [full_sentence]\<rparr>))"
proof -
  assume a: "strip (transcript r) \<noteq> []" and b: "speech_final r"
  have ne: "strip (get_full_transcript (add_part (transcript_collector self) (transcript r))) \<noteq> []"
    using a by (simp add: get_full_transcript_def add_part_def strip_join_snoc)
  show ?thesis
    using a b ne
    by (cases self) (simp add: on_message_def Let_def call_callback_def split: option.splits)
qed

theorem on_message_reset_after_callback_witness:
  "strip (transcript final_there) \<noteq> [] \<and> speech_final final_there
   \<and> on_message (Some raising) heard_Hi final_there =
       \<lparr>transcript_collector = \<lparr>transcript_parts = [''Hi'', ''there'']\<rparr>,
        transcription_complete = Some False, invoked = [''Hi there''],
        printed = [''Error processing message: boom'']\<rparr>
   \<and> on_message (Some returning) heard_Hi final_there =
       \<lparr>transcript_collector = \<lparr>transcript_parts = []\<rparr>,
        transcription_complete = Some True, invoked = [''Hi there''], printed = []\<rparr>"
proof -
  have a: "strip (transcript final_there) \<noteq> []"
    by (simp add: final_there_def strip_eq_Nil_iff isspace_def)
  have b: "speech_final final_there"
    by (simp add: final_there_def)
  show ?thesis
    using a b on_message_reset_after_callback [OF a b, of raising heard_Hi]
      on_message_reset_after_callback [OF a b, of returning heard_Hi]
    by (simp add: final_there_def heard_Hi_def raising_def returning_def add_part_def
          get_full_transcript_def reset_def set_complete_def)
qed

text \<open>
  The claim C6 as stated fails: with the part \<open>Hi\<close> collected, a final result \<open>there\<close>
  and a callback that raises, the callback has been invoked and the collector still
  holds \<open>Hi\<close> and \<open>there\<close>.
\<close>

theorem on_message_raising_callback_counterexample:
  "invoked (on_message (Some raising) heard_Hi final_there) = [''Hi there'']
   \<and> transcript_parts (transcript_collector (on_message (Some raising) heard_Hi final_there))
       = [''Hi'', ''there'']
   \<and> transcript_parts (transcript_collector (on_message (Some raising) heard_Hi final_there))
       \<noteq> []"
proof -
  have "strip ''there'' \<noteq> []" "strip ''Hi there'' \<noteq> []"
    by (simp_all add: strip_eq_Nil_iff isspace_def)
  then show ?thesis
    by (simp add: on_message_def final_there_def heard_Hi_def raising_def add_part_def
          get_full_transcript_def call_callback_def Let_def)
qed

lemma quiet_keeps_waiting:
  "quiet i \<Longrightarrow> transcription_complete self = Some False \<Longrightarrow>
   transcription_complete (dispatch cb self i) = Some False"
  by (cases i)
     (auto simp: on_message_def Let_def add_part_def on_error_def on_close_def on_metadata_def)

lemma deliver_quiet:
  "cancel_at env = None \<Longrightarrow> list_all quiet pre \<Longrightarrow> transcription_complete self = Some False \<Longrightarrow>
   deliver cb env self k (pre @ inputs)
     = deliver cb env (foldl (dispatch cb) self pre) (k + length pre) inputs
   \<and> transcription_complete (foldl (dispatch cb) self pre) = Some False"
proof (induction pre arbitrary: self k)
  case Nil
  then show ?case by simp
next
  case (Cons i pre)
  have q: "transcription_complete (dispatch cb self i) = Some False"
    using Cons.prems by (simp add: quiet_keeps_waiting)
  show ?case
    using Cons.prems q Cons.IH [of "dispatch cb self i" "Suc k"] by simp
qed

lemma foldl_dispatch_take_add:
  "foldl (dispatch cb) (foldl (dispatch cb) s (take w rest)) (take n (drop w rest))
     = foldl (dispatch cb) s (take (w + n) rest)"
  by (simp add: take_add)

text \<open>
  The other ends of a session: a call of \<open>stop\<close> sets the event, and a cancellation of
  the waiting task is answered by the \<open>except asyncio.CancelledError\<close> clause.
\<close>

lemma stop_finishes:
  "setup_error env = None \<Longrightarrow> cancel_at env = None \<Longrightarrow> list_all quiet pre \<Longrightarrow>
   fst (process_audio self cb env (pre @ Stop # rest))
     = (case teardown_error env of None \<Rightarrow> Finished | Some e \<Rightarrow> Raised e)"
proof -
  let ?self = "self\<lparr>transcription_complete := Some False\<rparr>"
  assume s: "setup_error env = None" and c: "cancel_at env = None" and q: "list_all quiet pre"
  have w: "transcription_complete ?self = Some False"
    by simp
  have d: "deliver cb env ?self 0 (pre @ Stop # rest)
      = deliver cb env (foldl (dispatch cb) ?self pre) (0 + length pre) (Stop # rest)"
    and fl: "transcription_complete (foldl (dispatch cb) ?self pre) = Some False"
    using deliver_quiet [OF c q w, of cb 0 "Stop # rest"] by simp_all
  show ?thesis
    using s c d fl
    by (simp add: process_audio_def stop_def set_complete_def finish_session_def Let_def
          split: option.splits)
qed

lemma cancel_finishes:
  "setup_error env = None \<Longrightarrow> cancel_at env = Some 0 \<Longrightarrow>
   fst (process_audio self cb env inputs)
     = (case teardown_error env of None \<Rightarrow> Finished | Some e \<Rightarrow> Raised e)"
  by (cases inputs)
     (simp_all add: process_audio_def finish_session_def Let_def split: option.splits)

lemma setup_error_raises:
  "setup_error env = Some e \<Longrightarrow>
   process_audio self cb env inputs
     = (Raised e,
        self\<lparr>transcription_complete := Some False,
             printed := printed self @ [''Error in process_audio: '' @ str_exn e]\<rparr>,
        inputs)"
  by (simp add: process_audio_def)

text \<open>
  Claim C7, as the code has it. In a session that is set up and not cancelled, let
  inputs that leave the session waiting (error, close and metadata events, results
  that are blank or do not end an utterance) be followed by a result that ends an
  utterance, with a callback that returns or none. Then \<open>on_message\<close> resets the
  collector and sets \<open>transcription_complete\<close>, the event \<open>process_audio\<close> awaits. The
  handlers go on consuming the results that reach them until the connection is
  finished, from the reset collector; but the session ends there, whatever the event
  loop's schedule: \<open>process_audio\<close> leaves its wait, stops the audio source and finishes
  the connection, and the inputs after that are not handled. The inputs of the first
  kind alone, close and error events included, leave the session waiting.
\<close>

theorem process_audio_finishes_after_utterance:
  "setup_error env = None \<Longrightarrow> cancel_at env = None \<Longrightarrow> list_all quiet pre \<Longrightarrow>
   strip (transcript r) \<noteq> [] \<Longrightarrow> speech_final r \<Longrightarrow>
   (case cb of
      None \<Rightarrow> True
    | Some f \<Rightarrow>
        f (join '' ''
             (transcript_parts
                (transcript_collector
                   (foldl (dispatch cb) (self\<lparr>transcription_complete := Some False\<rparr>) pre))
              @ [transcript r])) = None) \<Longrightarrow>
   process_audio self cb env pre
     = (Waiting, foldl (dispatch cb) (self\<lparr>transcription_complete := Some False\<rparr>) pre, [])
   \<and> transcription_complete
        (on_message cb (foldl (dispatch cb) (self\<lparr>transcription_complete := Some False\<rparr>) pre) r)
       = Some True
   \<and> transcript_parts
        (transcript_collector
           (on_message cb (foldl (dispatch cb) (self\<lparr>transcription_complete := Some False\<rparr>) pre) r))
       = []
   \<and> fst (process_audio self cb env (pre @ Transcript r # rest))
       = (case teardown_error env of None \<Rightarrow> Finished | Some e \<Rightarrow> Raised e)
   \<and> snd (snd (process_audio self cb env (pre @ Transcript r # rest)))
       = drop (wake_lag env + finish_lag env) rest
   \<and> transcript_collector (fst (snd (process_audio self cb env (pre @ Transcript r # rest))))
       = transcript_collector
           (foldl (dispatch cb)
              (on_message cb (foldl (dispatch cb) (self\<lparr>transcription_complete := Some False\<rparr>) pre) r)
              (take (wake_lag env + finish_lag env) rest))
   \<and> invoked (fst (snd (process_audio self cb env (pre @ Transcript r # rest))))
       = invoked
           (foldl (dispatch cb)
              (on_message cb (foldl (dispatch cb) (self\<lparr>transcription_complete := Some False\<rparr>) pre) r)
              (take (wake_lag env + finish_lag env) rest))"
proof -
  let ?self = "self\<lparr>transcription_complete := Some False\<rparr>"
  let ?st = "foldl (dispatch cb) ?self pre"
  assume s: "setup_error env = None" and c: "cancel_at env = None" and q: "list_all quiet pre"
    and a: "strip (transcript r) \<noteq> []" and b: "speech_final r"
    and f: "case cb of
              None \<Rightarrow> True
            | Some f \<Rightarrow>
                f (join '' '' (transcript_parts (transcript_collector ?st) @ [transcript r])) = None"
  have w: "transcription_complete ?self = Some False"
    by simp
  have d: "deliver cb env ?self 0 (pre @ inputs) = deliver cb env ?st (0 + length pre) inputs"
    and fl: "transcription_complete ?st = Some False" for inputs
    using deliver_quiet [OF c q w, of cb 0 inputs] by simp_all
  have ne: "strip (join '' '' (transcript_parts (transcript_collector ?st) @ [transcript r])) \<noteq> []"
    using a by (rule strip_join_snoc)
  have flag: "transcription_complete (on_message cb ?st r) = Some True"
    using a b f ne fl
    by (auto simp: on_message_def Let_def call_callback_def set_complete_def add_part_def
          get_full_transcript_def split: option.splits)
  have parts: "transcript_parts (transcript_collector (on_message cb ?st r)) = []"
    using a b f ne fl
    by (auto simp: on_message_def Let_def call_callback_def set_complete_def add_part_def
          get_full_transcript_def reset_def split: option.splits)
  have waiting: "process_audio self cb env pre = (Waiting, ?st, [])"
    using s c d [of "[]"] by (simp add: process_audio_def)
  have run: "process_audio self cb env (pre @ Transcript r # rest)
      = finish_session cb env False (on_message cb ?st r) rest"
    using s c d [of "Transcript r # rest"] flag by (simp add: process_audio_def)
  show ?thesis
    unfolding run
    using waiting flag parts
    by (simp add: finish_session_def Let_def foldl_dispatch_take_add drop_drop add.commute
          split: option.splits)
qed

theorem process_audio_finishes_after_utterance_witness:
  "setup_error (prompt_env 1 0 None) = None \<and> cancel_at (prompt_env 1 0 None) = None
   \<and> list_all quiet [Close 1000 ''going away'', Transcript (final_there\<lparr>speech_final := False\<rparr>)]
   \<and> strip (transcript final_there) \<noteq> [] \<and> speech_final final_there
   \<and> fst (process_audio heard_Hi (Some returning) (prompt_env 1 0 None)
            [Close 1000 ''going away'', Transcript (final_there\<lparr>speech_final := False\<rparr>)])
       = Waiting
   \<and> fst (process_audio heard_Hi (Some returning) (prompt_env 1 0 None)
            ([Close 1000 ''going away'', Transcript (final_there\<lparr>speech_final := False\<rparr>)]
             @ Transcript final_there # [Transcript final_there, Transcript final_there]))
       = Finished
   \<and> snd (snd (process_audio heard_Hi (Some returning) (prompt_env 1 0 None)
            ([Close 1000 ''going away'', Transcript (final_there\<lparr>speech_final := False\<rparr>)]
             @ Transcript final_there # [Transcript final_there, Transcript final_there])))
       = [Transcript final_there]
   \<and> invoked (fst (snd (process_audio heard_Hi (Some returning) (prompt_env 1 0 None)
            ([Close 1000 ''going away'', Transcript (final_there\<lparr>speech_final := False\<rparr>)]
             @ Transcript final_there # [Transcript final_there, Transcript final_there]))))
       = [''Hi there there'', ''there'']"
proof -
  let ?pre = "[Close 1000 ''going away'', Transcript (final_there\<lparr>speech_final := False\<rparr>)]"
  have th: "strip ''there'' \<noteq> []"
    by (simp add: strip_eq_Nil_iff isspace_def)
  have s: "setup_error (prompt_env 1 0 None) = None" and c: "cancel_at (prompt_env 1 0 None) = None"
    by (simp_all add: prompt_env_def)
  have q: "list_all quiet ?pre"
    by (simp add: final_there_def)
  have a: "strip (transcript final_there) \<noteq> []"
    using th by (simp add: final_there_def)
  have b: "speech_final final_there"
    by (simp add: final_there_def)
  have f: "case Some returning of
              None \<Rightarrow> True
            | Some f \<Rightarrow>
                f (join '' ''
                     (transcript_parts
                        (transcript_collector
                           (foldl (dispatch (Some returning))
                              (heard_Hi\<lparr>transcription_complete := Some False\<rparr>) ?pre))
                      @ [transcript final_there])) = None"
    by (simp add: returning_def)
  have st: "transcript_collector
              (foldl (dispatch (Some returning)) (heard_Hi\<lparr>transcription_complete := Some False\<rparr>) ?pre)
            = \<lparr>transcript_parts = [''Hi'', ''there'']\<rparr>"
    "invoked (foldl (dispatch (Some returning)) (heard_Hi\<lparr>transcription_complete := Some False\<rparr>) ?pre)
            = []"
    using th
    by (simp_all add: heard_Hi_def final_there_def on_close_def on_message_def Let_def add_part_def)
  have ne: "strip ''Hi there there'' \<noteq> []"
    by (simp add: strip_eq_Nil_iff isspace_def)
  have inv: "invoked
      (foldl (dispatch (Some returning))
         (on_message (Some returning)
            (foldl (dispatch (Some returning)) (heard_Hi\<lparr>transcription_complete := Some False\<rparr>) ?pre)
            final_there)
         (take (wake_lag (prompt_env 1 0 None) + finish_lag (prompt_env 1 0 None))
            [Transcript final_there, Transcript final_there]))
      = [''Hi there there'', ''there'']"
    using th ne st
    by (simp add: prompt_env_def on_message_def Let_def add_part_def get_full_transcript_def
          call_callback_def returning_def final_there_def reset_def set_complete_def
          split: option.splits)
  show ?thesis
    using s c q a b inv
      process_audio_finishes_after_utterance [OF s c q a b f,
        of "[Transcript final_there, Transcript final_there]"]
    by (simp add: prompt_env_def)
qed

text \<open>
  The claim C7 as stated fails. Three results that each end an utterance, and no
  close or error event: the session is finished, after one callback call when the
  coroutine of \<open>process_audio\<close> runs at once and after two when one more result reaches
  its handler first, and the third result is handled in neither. And a close event
  followed by an error event leaves the session waiting.
\<close>

theorem process_audio_session_counterexample:
  "process_audio_outcome (prompt_env 0 0 None) = (Finished, [''there''], 2)
   \<and> process_audio_outcome (prompt_env 1 0 None) = (Finished, [''there'', ''there''], 1)
   \<and> process_audio_outcome (prompt_env 0 1 None) = (Finished, [''there'', ''there''], 1)
   \<and> fst (process_audio DeepgramLiveTranscriber_init (Some returning) (prompt_env 0 0 None)
          [Close 1000 ''end of stream'', Error ''connection lost'']) = Waiting"
proof -
  have "strip ''there'' \<noteq> []"
    by (simp add: strip_eq_Nil_iff isspace_def)
  then show ?thesis
    by (simp add: process_audio_outcome_def process_audio_def prompt_env_def finish_session_def
          DeepgramLiveTranscriber_init_def TranscriptCollector_init_def
          on_message_def final_there_def returning_def add_part_def reset_def
          get_full_transcript_def call_callback_def Let_def set_complete_def
          on_close_def on_error_def)
qed


section \<open>Retries and translation\<close>

lemma attempts_made_gt: "a < n \<Longrightarrow> a < attempts_made create prompt a n"
proof -
  assume "a < n"
  show ?thesis
  proof (cases "find (\<lambda>k. \<not> isl (create k prompt)) [a..<n]")
    case None
    then show ?thesis using \<open>a < n\<close> by (simp add: attempts_made_def)
  next
    case (Some k)
    then have "k \<in> set [a..<n]"
      by (auto simp: find_Some_iff)
    then show ?thesis using Some by (simp add: attempts_made_def)
  qed
qed

lemma attempts_made_le: "a \<le> n \<Longrightarrow> attempts_made create prompt a n \<le> n"
proof (cases "find (\<lambda>k. \<not> isl (create k prompt)) [a..<n]")
  case None
  then show ?thesis by (simp add: attempts_made_def)
next
  case (Some k)
  then have "k \<in> set [a..<n]"
    by (auto simp: find_Some_iff)
  then show ?thesis using Some by (simp add: attempts_made_def)
qed

lemma attempts_made_step:
  "a < n \<Longrightarrow> attempts_made create prompt a n =
     (if isl (create a prompt) then (if Suc a = n then n else attempts_made create prompt (Suc a) n)
      else Suc a)"
  by (simp add: attempts_made_def upt_conv_Cons)

lemma retry_loop_outcome:
  "a < nat m \<Longrightarrow> length sent = a \<Longrightarrow>
   fst (retry_loop create prompt m (map int [a..<nat m]) sent out)
     = map_sum id Some (create (attempts_made create prompt a (nat m) - 1) prompt)
   \<and> fst (snd (retry_loop create prompt m (map int [a..<nat m]) sent out))
     = sent @ replicate (attempts_made create prompt a (nat m) - a) prompt"
proof (induction "nat m - a" arbitrary: a sent out)
  case 0
  then show ?case by simp
next
  case (Suc d)
  have u: "[a..<nat m] = a # [Suc a..<nat m]"
    using Suc.prems(1) by (simp add: upt_conv_Cons)
  have last: "int a = m - 1 \<longleftrightarrow> Suc a = nat m"
    using Suc.prems(1) by auto
  show ?case
  proof (cases "create a prompt")
    case (Inr content)
    then show ?thesis
      using Suc.prems by (simp add: u attempts_made_step)
  next
    case (Inl e)
    show ?thesis
    proof (cases "Suc a = nat m")
      case True
      then have nm: "nat m = Suc a" and la: "int a = m - 1"
        using last by simp_all
      have am: "attempts_made create prompt a (nat m) = Suc a"
        using Inl Suc.prems(1) True by (simp add: attempts_made_step)
      show ?thesis
        unfolding am u using Inl Suc.prems(2) la by simp
    next
      case False
      then have lt: "Suc a < nat m"
        using Suc.prems(1) by simp
      have d: "d = nat m - Suc a"
        using Suc.hyps(2) by simp
      have len: "length (sent @ [prompt]) = Suc a"
        using Suc.prems(2) by simp
      have nl: "int a \<noteq> m - 1"
        using False last by simp
      have am: "attempts_made create prompt a (nat m) = attempts_made create prompt (Suc a) (nat m)"
        using Inl Suc.prems(1) False by (simp add: attempts_made_step)
      have gt: "Suc a < attempts_made create prompt (Suc a) (nat m)"
        using lt by (rule attempts_made_gt)
      then have "attempts_made create prompt (Suc a) (nat m) - a
          = Suc (attempts_made create prompt (Suc a) (nat m) - Suc a)"
        by arith
      then have r: "replicate (attempts_made create prompt (Suc a) (nat m) - a) prompt
          = prompt # replicate (attempts_made create prompt (Suc a) (nat m) - Suc a) prompt"
        by simp
      have step: "retry_loop create prompt m (map int [a..<nat m]) sent out
          = retry_loop create prompt m (map int [Suc a..<nat m]) (sent @ [prompt])
              (out @ [''Attempt '' @ str_int (int a + 1) @ '' failed, retrying...''])"
        unfolding u using Inl nl Suc.prems(2) by simp
      show ?thesis
        unfolding step am r
        using Suc.hyps(1) [OF d lt len] by simp
    qed
  qed
qed

lemma attempts_made_first_success:
  "k < n \<Longrightarrow> (\<forall>j<k. isl (create j prompt)) \<Longrightarrow> \<not> isl (create k prompt) \<Longrightarrow>
   attempts_made create prompt 0 n = Suc k"
proof -
  assume k: "k < n" and f: "\<forall>j<k. isl (create j prompt)" and s: "\<not> isl (create k prompt)"
  have "find (\<lambda>k. \<not> isl (create k prompt)) [0..<n] = Some k"
    using k f s by (auto simp: find_Some_iff intro!: exI [of _ k])
  then show ?thesis
    by (simp add: attempts_made_def)
qed

lemma attempts_made_all_fail:
  "(\<forall>j<n. isl (create j prompt)) \<Longrightarrow> attempts_made create prompt 0 n = n"
proof -
  assume "\<forall>j<n. isl (create j prompt)"
  then have "find (\<lambda>k. \<not> isl (create k prompt)) [0..<n] = None"
    by (simp add: find_None_iff)
  then show ?thesis
    by (simp add: attempts_made_def)
qed

text \<open>
  Claim C8. For every positive \<open>max_retries\<close>, \<open>generate_mom\<close> makes
  \<open>attempts_made\<close> requests, at least one and at most \<open>max_retries\<close>: one more than the
  index of the first attempt that succeeds among the first \<open>max_retries\<close>, or
  \<open>max_retries\<close> when they all fail (lemmas \<open>attempts_made_first_success\<close> and
  \<open>attempts_made_all_fail\<close>). Every request carries the same prompt, and the result is
  the outcome of the last attempt made: its content when it succeeded, its exception
  when it is the failure of attempt \<open>max_retries\<close>.
\<close>

theorem generate_mom_retries:
  "0 < max_retries \<Longrightarrow>
   fst (generate_mom create current_date meeting_transcript language max_retries)
     = map_sum id Some
         (create
            (attempts_made create (create_mom_prompt current_date meeting_transcript language)
               0 (nat max_retries) - 1)
            (create_mom_prompt current_date meeting_transcript language))
   \<and> fst (snd (generate_mom create current_date meeting_transcript language max_retries))
     = replicate
         (attempts_made create (create_mom_prompt current_date meeting_transcript language)
            0 (nat max_retries))
         (create_mom_prompt current_date meeting_transcript language)
   \<and> 0 < attempts_made create (create_mom_prompt current_date meeting_transcript language)
            0 (nat max_retries)
   \<and> attempts_made create (create_mom_prompt current_date meeting_transcript language)
            0 (nat max_retries) \<le> nat max_retries"
proof -
  assume m: "0 < max_retries"
  then have lt: "0 < nat max_retries"
    by simp
  have len: "length ([] :: string list) = 0"
    by simp
  show ?thesis
    using retry_loop_outcome [OF lt len, of create
        "create_mom_prompt current_date meeting_transcript language" "[]"]
      attempts_made_gt [OF lt, of create
        "create_mom_prompt current_date meeting_transcript language"]
      attempts_made_le [of 0 "nat max_retries" create
        "create_mom_prompt current_date meeting_transcript language"]
    by (simp add: generate_mom_def range_def)
qed

lemma attempts_made_flaky: "attempts_made flaky prompt 0 (nat 3) = 3"
  using attempts_made_first_success [of 2 3 flaky prompt]
  by (simp add: flaky_def less_Suc_eq numeral_2_eq_2)

lemma attempts_made_failing: "attempts_made failing prompt 0 (nat 3) = 3"
  using attempts_made_all_fail [of 3 failing prompt]
  by (simp add: failing_def)

lemma str_int_2: "str_int 2 = ''2''"
  by code_simp

theorem generate_mom_retries_witness:
  "(0::int) < 3
   \<and> fst (generate_mom flaky ''03-11-2026'' ''Hi there'' ''english'' 3) = Inr (Some ''minutes'')
   \<and> fst (snd (generate_mom flaky ''03-11-2026'' ''Hi there'' ''english'' 3))
       = replicate 3 (create_mom_prompt ''03-11-2026'' ''Hi there'' ''english'')
   \<and> fst (generate_mom failing ''03-11-2026'' ''Hi there'' ''english'' 3)
       = Inl (Exception ''failure 2'')
   \<and> fst (snd (generate_mom failing ''03-11-2026'' ''Hi there'' ''english'' 3))
       = replicate 3 (create_mom_prompt ''03-11-2026'' ''Hi there'' ''english'')"
proof -
  have h: "(0::int) < 3"
    by simp
  show ?thesis
    using h generate_mom_retries [OF h, of flaky "''03-11-2026''" "''Hi there''" "''english''"]
      generate_mom_retries [OF h, of failing "''03-11-2026''" "''Hi there''" "''english''"]
    unfolding attempts_made_flaky attempts_made_failing
    by (simp add: flaky_def failing_def str_int_2)
qed

text \<open>
  Claim C10. When \<open>target_language.lower()\<close> is \<open>english\<close>, \<open>translate_text\<close> returns
  the text as it is: no request is made and nothing is printed.
\<close>

theorem translate_text_english:
  "lower target_language = ''english'' \<Longrightarrow>
   translate_text create text target_language = (Inr text, [], [])"
  by (simp add: translate_text_def)

theorem translate_text_english_witness:
  "lower ''English'' = ''english'' \<and> lower ''ENGLISH'' = ''english''
   \<and> translate_text failing ''SPEAKER 0: Hi'' ''English'' = (Inr ''SPEAKER 0: Hi'', [], [])"
proof -
  have h: "lower ''English'' = ''english''"
    by code_simp
  have h2: "lower ''ENGLISH'' = ''english''"
    by code_simp
  show ?thesis
    using h h2 translate_text_english [OF h, of failing "''SPEAKER 0: Hi''"] by simp
qed

end
